theory Spec2Isabelle
  imports Complex_Main
begin

section \<open>Errors and tensors\<close>

text \<open>
  The loss criterion of \<^verbatim>\<open>src/loss/torch/detection_loss.py\<close> works on torch tensors.
  A tensor is modelled by nested lists in row-major order, its floating-point entries by
  reals; where the source reads a shape that the nested lists cannot carry (a dimension of
  extent 0), the shape is a field of its own. Tensors that belong together are assumed to
  agree in shape, as torch would insist; the theorems name the shapes they need. Every
  other raise of the source is a value of \<open>error\<close>.
\<close>

datatype error = UnboundLocalError | RuntimeError | IndexError

text \<open>A 2-d tensor of shape \<open>(length t2rows, t2cols)\<close>: the flat target rows.\<close>

record tensor2 =
  t2rows :: "real list list"
  t2cols :: nat

text \<open>A 3-d tensor with its shape, the padded per-image targets.\<close>

record tensor3 =
  t3shape :: "nat \<times> nat \<times> nat"
  t3data :: "real list list list"

definition zeros3 :: "nat \<Rightarrow> nat \<Rightarrow> nat \<Rightarrow> tensor3" where
  "zeros3 b n w = \<lparr>t3shape = (b, n, w), t3data = replicate b (replicate n (replicate w 0))\<rparr>"

section \<open>Target preprocessing\<close>

text \<open>
  \<^verbatim>\<open>_, counts = i.unique(return_counts=True)\<close> followed by \<^verbatim>\<open>counts.max()\<close>: the largest
  number of rows that carry the same image index.
\<close>

definition max_count :: "real list \<Rightarrow> nat" where
  "max_count i = fold max (map (count_list i) i) 0"

text \<open>
  One pass of the loop \<^verbatim>\<open>for j in range(batch_size)\<close>: the rows whose first column
  equals \<open>j\<close>, without that column, written into the first \<open>n\<close> slots of a zero block.
\<close>

definition image_block :: "real list list \<Rightarrow> nat \<Rightarrow> nat \<Rightarrow> nat \<Rightarrow> real list list" where
  "image_block rows cmax w j =
     (let m = map tl (filter (\<lambda>r. hd r = real j) rows)
      in m @ replicate (cmax - length m) (replicate w 0))"

text \<open>The library's \<^verbatim>\<open>xywh2xyxy\<close>: centre and size to corners.\<close>

fun xywh2xyxy :: "real list \<Rightarrow> real list" where
  "xywh2xyxy [x, y, w, h] = [x - w / 2, y - h / 2, x + w / 2, y + h / 2]"
| "xywh2xyxy v = v"

text \<open>\<^verbatim>\<open>out[..., 1:5] = xywh2xyxy(out[..., 1:5].mul_(scale_tensor))\<close> on one row.\<close>

definition rescale_row :: "real \<times> real \<times> real \<times> real \<Rightarrow> real list \<Rightarrow> real list" where
  "rescale_row s r =
     (case s of (s0, s1, s2, s3) \<Rightarrow>
        take 1 r @ xywh2xyxy (map2 (*) (take 4 (drop 1 r)) [s0, s1, s2, s3]) @ drop 5 r)"

text \<open>
  \<^verbatim>\<open>preprocess\<close>. With no rows the zero tensor is returned at once;
  \<^verbatim>\<open>torch.zeros\<close> refuses the extent \<open>ne - 1\<close> when it is negative. Otherwise the
  rows are grouped by image and the box columns are rescaled, which needs the four columns
  \<open>1:5\<close> to exist.
\<close>

definition preprocess ::
  "tensor2 \<Rightarrow> nat \<Rightarrow> real \<times> real \<times> real \<times> real \<Rightarrow> error + tensor3" where
  "preprocess targets batch_size scale_tensor =
     (let nl = length (t2rows targets); ne = t2cols targets in
      if nl = 0 then
        (if ne = 0 then Inl RuntimeError else Inr (zeros3 batch_size 0 (ne - 1)))
      else if ne = 0 then Inl IndexError
      else
        (let i = map hd (t2rows targets);
             cmax = max_count i;
             out = map (image_block (t2rows targets) cmax (ne - 1)) [0..<batch_size]
         in if ne - 1 < 5 then Inl RuntimeError
            else Inr \<lparr>t3shape = (batch_size, cmax, ne - 1),
                      t3data = map (map (rescale_row scale_tensor)) out\<rparr>))"

text \<open>\<^verbatim>\<open>preprocess_embedding\<close>: the same grouping, no rescaling.\<close>

definition preprocess_embedding :: "tensor2 \<Rightarrow> nat \<Rightarrow> error + tensor3" where
  "preprocess_embedding targets batch_size =
     (let nl = length (t2rows targets); ne = t2cols targets in
      if nl = 0 then
        (if ne = 0 then Inl RuntimeError else Inr (zeros3 batch_size 0 (ne - 1)))
      else if ne = 0 then Inl IndexError
      else
        (let i = map hd (t2rows targets);
             cmax = max_count i;
             out = map (image_block (t2rows targets) cmax (ne - 1)) [0..<batch_size]
         in Inr \<lparr>t3shape = (batch_size, cmax, ne - 1), t3data = out\<rparr>))"


section \<open>Masked selection and the classification loss\<close>

text \<open>
  Boolean-mask indexing \<^verbatim>\<open>t[mask]\<close> of a tensor of shape \<open>(b, a, ...)\<close> by a mask of shape
  \<open>(b, a)\<close>: the entries at the true positions, image by image, position by position.
\<close>

definition mask_select :: "'a list list \<Rightarrow> bool list list \<Rightarrow> 'a list" where
  "mask_select t m = concat (map2 (\<lambda>row mrow. map fst (filter snd (zip row mrow))) t m)"

text \<open>\<^verbatim>\<open>.sum()\<close> of a tensor of shape \<open>(b, a, c)\<close>.\<close>

definition tensor_sum :: "real list list list \<Rightarrow> real" where
  "tensor_sum t = sum_list (concat (concat t))"

text \<open>
  \<^verbatim>\<open>nn.BCEWithLogitsLoss(reduction="none")\<close>, the library's element-wise loss
  \<open>- (z * log (sigmoid x) + (1 - z) * log (1 - sigmoid x))\<close>.
\<close>

definition sigmoid :: "real \<Rightarrow> real" where
  "sigmoid x = 1 / (1 + exp (- x))"

definition bce_with_logits :: "real \<Rightarrow> real \<Rightarrow> real" where
  "bce_with_logits x z = - (z * ln (sigmoid x) + (1 - z) * ln (1 - sigmoid x))"

definition bce :: "real list list list \<Rightarrow> real list list list \<Rightarrow> real list list list" where
  "bce input target = map2 (map2 (map2 bce_with_logits)) input target"

text \<open>\<^verbatim>\<open>target_scores_sum = max(target_scores.sum(), 1)\<close>.\<close>

definition get_target_scores_sum :: "real list list list \<Rightarrow> real" where
  "get_target_scores_sum target_scores = max (tensor_sum target_scores) 1"

text \<open>\<^verbatim>\<open>loss[1] = self.bce(pred_scores, target_scores).sum() / target_scores_sum\<close>.\<close>

definition cls_loss :: "real list list list \<Rightarrow> real list list list \<Rightarrow> real" where
  "cls_loss pred_scores target_scores =
     tensor_sum (bce pred_scores target_scores) / get_target_scores_sum target_scores"

section \<open>External primitives\<close>

text \<open>
  The functions that the file imports and whose code is elsewhere are parameters of the
  model: \<^verbatim>\<open>bbox_iou\<close> (called with \<^verbatim>\<open>xywh=False, CIoU=True\<close>, on one pair of boxes),
  \<^verbatim>\<open>bbox2dist\<close>, the \<^verbatim>\<open>DFLoss\<close> module (with its \<^verbatim>\<open>reg_max\<close>), \<^verbatim>\<open>dist2bbox\<close> (called with
  \<^verbatim>\<open>xywh=False\<close>), \<^verbatim>\<open>torch.topk\<close> (the index list it returns), \<^verbatim>\<open>kd_loss\<close> and
  \<^verbatim>\<open>rkd_loss\<close>. An embedding row is a \<open>real list option\<close>, see \<open>normalize_row\<close> below.
\<close>

record externals =
  bbox_iou :: "real list \<Rightarrow> real list \<Rightarrow> real"
  bbox2dist :: "real list list \<Rightarrow> real list list list \<Rightarrow> nat \<Rightarrow> real list list list"
  dfl_loss :: "nat \<Rightarrow> real list list \<Rightarrow> real list list \<Rightarrow> real list"
  dist2bbox :: "real list list list \<Rightarrow> real list list \<Rightarrow> real list list list"
  topk :: "real list \<Rightarrow> nat \<Rightarrow> nat list"
  kd_loss :: "real list option list \<Rightarrow> real list list \<Rightarrow> real"
  rkd_loss :: "real list list \<Rightarrow> real list option list \<Rightarrow> real"

section \<open>BboxLoss\<close>

text \<open>\<^verbatim>\<open>.view(-1, r)\<close> of a tensor of shape \<open>(n, c)\<close>: rows of \<open>r\<close> consecutive entries.\<close>

definition view_rows :: "nat \<Rightarrow> 'a list list \<Rightarrow> 'a list list" where
  "view_rows r t =
     (let flat = concat t in map (\<lambda>s. take r (drop (s * r) flat)) [0..<length flat div r])"

text \<open>
  \<^verbatim>\<open>BboxLoss.forward\<close>. The module holds a \<^verbatim>\<open>DFLoss\<close> exactly when \<open>reg_max > 1\<close>. The
  tensor \<open>iou\<close> has shape \<open>(b, a, 1)\<close>; its last dimension is left out.
\<close>

definition forward ::
  "externals \<Rightarrow> nat \<Rightarrow> real list list list \<Rightarrow> real list list list \<Rightarrow> real list list \<Rightarrow>
   real list list list \<Rightarrow> real list list list \<Rightarrow> real \<Rightarrow> bool list list \<Rightarrow>
   real \<times> real \<times> real list list" where
  "forward ex reg_max pred_dist pred_bboxes anchor_points target_bboxes target_scores
           target_scores_sum fg_mask =
     (let weight = mask_select (map (map sum_list) target_scores) fg_mask;
          iou = map2 (map2 (bbox_iou ex)) pred_bboxes target_bboxes;
          iou_scores = map2 (\<lambda>i w. (1 - i) * w) (mask_select iou fg_mask) weight;
          loss_iou = sum_list iou_scores / target_scores_sum;
          loss_dfl =
            (if 1 < reg_max then
               (let target_ltrb = bbox2dist ex anchor_points target_bboxes (reg_max - 1);
                    l = map2 (*)
                          (dfl_loss ex reg_max
                             (view_rows reg_max (mask_select pred_dist fg_mask))
                             (mask_select target_ltrb fg_mask))
                          weight
                in sum_list l / target_scores_sum)
             else 0)
      in (loss_iou, loss_dfl, iou))"

section \<open>The criterion's configuration and box decoding\<close>

text \<open>
  The fields of \<^verbatim>\<open>v8DetectionLoss\<close> that the loss reads: the gains \<^verbatim>\<open>self.hyp\<close> and the
  head's \<^verbatim>\<open>reg_max\<close>. \<^verbatim>\<open>self.use_dfl\<close> and \<^verbatim>\<open>self.proj\<close> are computed from it once.
\<close>

record config =
  box_gain :: real
  cls_gain :: real
  dfl_gain :: real
  embed_gain :: real
  reg_max :: nat

definition use_dfl :: "config \<Rightarrow> bool" where
  "use_dfl cfg = (1 < reg_max cfg)"

text \<open>\<^verbatim>\<open>self.proj = torch.arange(m.reg_max, dtype=torch.float)\<close>.\<close>

definition proj :: "config \<Rightarrow> real list" where
  "proj cfg = map real [0..<reg_max cfg]"

definition softmax :: "real list \<Rightarrow> real list" where
  "softmax xs = map (\<lambda>x. exp x / sum_list (map exp xs)) xs"

text \<open>\<^verbatim>\<open>.matmul\<close> of a vector of bin probabilities with the projection vector.\<close>

definition matmul :: "real list \<Rightarrow> real list \<Rightarrow> real" where
  "matmul p q = sum_list (map2 (*) p q)"

text \<open>\<^verbatim>\<open>.view(b, a, 4, c // 4)\<close> on the channels of one position.\<close>

definition view4 :: "real list \<Rightarrow> real list list" where
  "view4 ch = (let r = length ch div 4 in map (\<lambda>s. take r (drop (s * r) ch)) [0..<4])"

text \<open>
  \<^verbatim>\<open>bbox_decode\<close>. The view needs \<open>c\<close> to be a multiple of four and the product needs
  \<open>c // 4\<close> to be the length of \<^verbatim>\<open>self.proj\<close>; torch raises otherwise. The library's
  \<^verbatim>\<open>dist2bbox\<close> is the parameter \<open>d2b\<close>.
\<close>

definition bbox_decode ::
  "config \<Rightarrow> (real list list list \<Rightarrow> real list list \<Rightarrow> real list list list) \<Rightarrow>
   real list list \<Rightarrow> real list list list \<Rightarrow> error + real list list list" where
  "bbox_decode cfg d2b anchor_points pred_dist =
     (if use_dfl cfg then
        (if list_all (list_all (\<lambda>ch. 4 * (length ch div 4) = length ch
                                      \<and> length ch div 4 = length (proj cfg))) pred_dist
         then Inr (d2b (map (map (\<lambda>ch. map (\<lambda>side. matmul (softmax side) (proj cfg)) (view4 ch)))
                          pred_dist)
                       anchor_points)
         else Inl RuntimeError)
      else Inr (d2b pred_dist anchor_points))"

section \<open>Embeddings and their selection\<close>

text \<open>\<^verbatim>\<open>pred_embeds.norm(2, dim=-1, keepdim=True)\<close> on one row.\<close>

definition l2_norm :: "real list \<Rightarrow> real" where
  "l2_norm v = sqrt (sum_list (map (\<lambda>x. x\<^sup>2) v))"

text \<open>
  \<^verbatim>\<open>pred_embeds = pred_embeds / l2_norm\<close> on one row. Torch divides an all-zero row by
  its zero norm without raising and the row becomes NaN; \<open>None\<close> stands for that row.
\<close>

definition normalize_row :: "real list \<Rightarrow> real list option" where
  "normalize_row v = (if l2_norm v = 0 then None else Some (map (\<lambda>x. x / l2_norm v) v))"

definition normalize_embeds :: "real list list list \<Rightarrow> real list option list list" where
  "normalize_embeds pred_embeds = map (map normalize_row) pred_embeds"

text \<open>\<^verbatim>\<open>iou_cls_scores = (iou_scores * target_scores).sum(-1)\<close>.\<close>

definition iou_cls :: "real list list \<Rightarrow> real list list list \<Rightarrow> real list list" where
  "iou_cls iou_scores target_scores =
     map2 (map2 (\<lambda>i ts. sum_list (map (\<lambda>t. i * t) ts))) iou_scores target_scores"

text \<open>
  \<^verbatim>\<open>torch.topk(input, k)\<close> raises when \<open>k\<close> exceeds the number of entries. Which of
  several equal values it returns is not part of its contract, so the index function is a
  parameter of the model, and the theorems on the selection hold for every index function
  that meets the contract \<open>is_topk\<close> below.

  \<open>topk_stable\<close> is one such function, a stable selection that prefers the lower index
  among equal values. It stands for the library only where the library's choice is
  determined: where the \<open>k\<close> largest entries are determined as a set (\<open>forced_topk\<close>
  below), and on lists of at most three entries, where the selection of the library's CPU
  kernel (\<^verbatim>\<open>std::nth_element\<close>, an insertion sort at that size) keeps the lower index
  first. On longer lists with ties among the candidates the library's choice is different.
\<close>

definition torch_topk ::
  "(real list \<Rightarrow> nat \<Rightarrow> nat list) \<Rightarrow> real list \<Rightarrow> nat \<Rightarrow> error + nat list" where
  "torch_topk tk xs k = (if length xs < k then Inl RuntimeError else Inr (tk xs k))"

definition topk_stable :: "real list \<Rightarrow> nat \<Rightarrow> nat list" where
  "topk_stable xs k = take k (sort_key (\<lambda>i. - (xs ! i)) [0..<length xs])"

text \<open>\<^verbatim>\<open>torch.unique\<close>: the distinct values, ascending.\<close>

definition torch_unique :: "int list \<Rightarrow> int list" where
  "torch_unique xs = sort (remdups xs)"

text \<open>
  \<^verbatim>\<open>iou_cls_scores[batch_index] * instance_mask\<close> with
  \<^verbatim>\<open>instance_mask = target_gt_idx[batch_index] == instance_id\<close>: the boolean mask
  multiplies as 1 or 0.
\<close>

definition instance_scores :: "real list \<Rightarrow> int list \<Rightarrow> int \<Rightarrow> real list" where
  "instance_scores sc gi instance_id = map2 (\<lambda>s g. s * (if g = instance_id then 1 else 0)) sc gi"

text \<open>\<^verbatim>\<open>embed_mask[batch_index][topk_idx] = True\<close>.\<close>

definition set_true :: "nat list \<Rightarrow> bool list \<Rightarrow> bool list" where
  "set_true idx m = fold (\<lambda>i m. m[i := True]) idx m"

text \<open>The inner loop \<^verbatim>\<open>for instance_id in torch.unique(target_gt_idx[batch_index])\<close>.\<close>

fun select_instances ::
  "(real list \<Rightarrow> nat \<Rightarrow> nat list) \<Rightarrow> nat \<Rightarrow> real list \<Rightarrow> int list \<Rightarrow> int list \<Rightarrow> bool list \<Rightarrow>
   error + bool list" where
  "select_instances tk k sc gi [] m = Inr m"
| "select_instances tk k sc gi (instance_id # rest) m =
     (case torch_topk tk (instance_scores sc gi instance_id) k of
        Inl e \<Rightarrow> Inl e
      | Inr topk_idx \<Rightarrow> select_instances tk k sc gi rest (set_true topk_idx m))"

text \<open>One image: the mask row starts as \<^verbatim>\<open>torch.zeros_like(fg_mask).bool()\<close>.\<close>

definition select_image ::
  "(real list \<Rightarrow> nat \<Rightarrow> nat list) \<Rightarrow> nat \<Rightarrow> real list \<Rightarrow> int list \<Rightarrow> bool list \<Rightarrow>
   error + bool list" where
  "select_image tk k sc gi fg_row =
     select_instances tk k sc gi (torch_unique gi) (replicate (length fg_row) False)"

text \<open>
  The outer loop \<^verbatim>\<open>for batch_index in range(target_gt_idx.shape[0])\<close>; rows of the mask
  beyond it stay false, and a missing row of scores or mask is an index error.
\<close>

fun embed_mask_of ::
  "(real list \<Rightarrow> nat \<Rightarrow> nat list) \<Rightarrow> nat \<Rightarrow> real list list \<Rightarrow> int list list \<Rightarrow> bool list list \<Rightarrow>
   error + bool list list" where
  "embed_mask_of tk k scs [] fg = Inr (map (\<lambda>r. replicate (length r) False) fg)"
| "embed_mask_of tk k [] (gi # gis) fg = Inl IndexError"
| "embed_mask_of tk k (sc # scs) (gi # gis) [] = Inl IndexError"
| "embed_mask_of tk k (sc # scs) (gi # gis) (r # fg) =
     (case select_image tk k sc gi r of
        Inl e \<Rightarrow> Inl e
      | Inr m \<Rightarrow> (case embed_mask_of tk k scs gis fg of
                    Inl e \<Rightarrow> Inl e
                  | Inr ms \<Rightarrow> Inr (m # ms)))"

section \<open>The loss\<close>

text \<open>
  What \<^verbatim>\<open>self.assigner(...)\<close> returns, without the first component, which
  \<^verbatim>\<open>__call__\<close> drops. The assigner's code is elsewhere; the loss is a function of its
  result.
\<close>

record assignment =
  target_bboxes :: "real list list list"
  target_scores :: "real list list list"
  target_embeds :: "real list list list"
  fg_mask :: "bool list list"
  target_gt_idx :: "int list list"

text \<open>\<^verbatim>\<open>fg_mask.sum()\<close>.\<close>

definition fg_sum :: "bool list list \<Rightarrow> nat" where
  "fg_sum fg = length (filter id (concat fg))"

text \<open>
  \<^verbatim>\<open>__call__\<close>, from the tensors that its first lines cut out of the predictions:
  \<open>pred_scores\<close>, \<open>pred_distri\<close> and \<open>pred_embeds\<close> after \<^verbatim>\<open>permute\<close>, the anchor points
  and strides of \<^verbatim>\<open>make_anchors\<close>, and the assignment. The local \<^verbatim>\<open>iou_scores\<close> is bound
  only inside \<^verbatim>\<open>if fg_mask.sum():\<close>, and the line after the conditional reads it.
\<close>

definition call ::
  "config \<Rightarrow> externals \<Rightarrow> nat \<Rightarrow> real list list list \<Rightarrow> real list list list \<Rightarrow>
   real list list list \<Rightarrow> real list list \<Rightarrow> real list \<Rightarrow> assignment \<Rightarrow>
   error + (real \<times> real list \<times> bool list list)" where
  "call cfg ex embed_topk pred_scores pred_distri pred_embeds0 anchor_points stride_tensor asg =
     (let pred_embeds = normalize_embeds pred_embeds0 in
      case bbox_decode cfg (dist2bbox ex) anchor_points pred_distri of
        Inl e \<Rightarrow> Inl e
      | Inr pred_bboxes \<Rightarrow>
         (let tss = get_target_scores_sum (target_scores asg);
              loss1 = cls_loss pred_scores (target_scores asg)
          in if fg_sum (fg_mask asg) = 0 then Inl UnboundLocalError
             else
              (let tb = map (\<lambda>row. map2 (\<lambda>box s. map (\<lambda>x. x / s) box) row stride_tensor)
                            (target_bboxes asg);
                   (loss0, loss2, iou_scores) =
                      forward ex (reg_max cfg) pred_distri pred_bboxes anchor_points tb
                        (target_scores asg) tss (fg_mask asg);
                   iou_cls_scores = iou_cls iou_scores (target_scores asg)
               in case embed_mask_of (topk ex) embed_topk iou_cls_scores (target_gt_idx asg)
                         (fg_mask asg) of
                    Inl e \<Rightarrow> Inl e
                  | Inr embed_mask \<Rightarrow>
                     (let kd = kd_loss ex (mask_select pred_embeds embed_mask)
                                          (mask_select (target_embeds asg) embed_mask);
                          rkd = rkd_loss ex (mask_select (target_embeds asg) embed_mask)
                                            (mask_select pred_embeds embed_mask);
                          loss = [loss0 * box_gain cfg, loss1 * cls_gain cfg,
                                  loss2 * dfl_gain cfg, (kd + rkd) * embed_gain cfg]
                      in Inr (sum_list loss, loss, fg_mask asg)))))"

section \<open>The specification's formulations\<close>

text \<open>Tensors of shape \<open>(b, a)\<close> respectively \<open>(b, a, c)\<close> that agree in shape.\<close>

definition same_shape2 :: "'a list list \<Rightarrow> 'b list list \<Rightarrow> bool" where
  "same_shape2 s t = list_all2 (\<lambda>x y. length x = length y) s t"

definition same_shape3 :: "'a list list list \<Rightarrow> 'b list list list \<Rightarrow> bool" where
  "same_shape3 s t = list_all2 (list_all2 (\<lambda>x y. length x = length y)) s t"

text \<open>
  The classification loss in the specification's words: the element-wise loss summed over
  every position and class, over the sum of all target scores floored at 1.
\<close>

definition cls_loss_spec :: "real list list list \<Rightarrow> real list list list \<Rightarrow> real" where
  "cls_loss_spec p t =
     (\<Sum>b<length p. \<Sum>i<length (p ! b). \<Sum>c<length (p ! b ! i).
         bce_with_logits (p ! b ! i ! c) (t ! b ! i ! c))
     / max (\<Sum>b<length t. \<Sum>i<length (t ! b). \<Sum>c<length (t ! b ! i). t ! b ! i ! c) 1"

text \<open>
  The localization loss in the specification's words: over the foreground positions, the
  position's summed target scores times one minus the IoU, over the normalization sum.
\<close>

definition loc_loss_spec ::
  "(real list \<Rightarrow> real list \<Rightarrow> real) \<Rightarrow> real list list list \<Rightarrow> real list list list \<Rightarrow>
   real list list list \<Rightarrow> real \<Rightarrow> bool list list \<Rightarrow> real" where
  "loc_loss_spec ciou pb tb ts tss fg =
     (\<Sum>b<length fg. \<Sum>i<length (fg ! b).
        if fg ! b ! i
        then (\<Sum>c<length (ts ! b ! i). ts ! b ! i ! c) * (1 - ciou (pb ! b ! i) (tb ! b ! i))
        else 0)
     / tss"

text \<open>
  Decoding in the specification's words: for each of the four sides, the expected bin index
  of the softmax of that side's \<open>R\<close> logits.
\<close>

definition expected_bin :: "nat \<Rightarrow> real list \<Rightarrow> real" where
  "expected_bin R p = (\<Sum>i<R. p ! i * real i)"

definition decode_spec :: "nat \<Rightarrow> real list \<Rightarrow> real list" where
  "decode_spec R ch = map (\<lambda>s. expected_bin R (softmax (take R (drop (s * R) ch)))) [0..<4]"

text \<open>
  The contract of \<^verbatim>\<open>torch.topk\<close>: \<open>k\<close> distinct indices in range, none of which holds a
  smaller value than an index left out.
\<close>

definition is_topk :: "(real list \<Rightarrow> nat \<Rightarrow> nat list) \<Rightarrow> bool" where
  "is_topk tk =
     (\<forall>xs k. k \<le> length xs \<longrightarrow>
        length (tk xs k) = k \<and> distinct (tk xs k) \<and>
        (\<forall>i\<in>set (tk xs k). i < length xs \<and>
           (\<forall>j<length xs. j \<notin> set (tk xs k) \<longrightarrow> xs ! j \<le> xs ! i)))"

text \<open>The positions of an image whose ground-truth index is \<open>instance_id\<close>.\<close>

definition instance_positions :: "int list \<Rightarrow> int \<Rightarrow> nat list" where
  "instance_positions gi instance_id = filter (\<lambda>i. gi ! i = instance_id) [0..<length gi]"


text \<open>
  The \<open>k\<close> largest entries of \<open>xs\<close> are determined as a set: every entry left out is
  strictly smaller than every entry taken. \<open>tie_free\<close> says so of every top-k call of the
  selection.
\<close>

definition forced_topk :: "real list \<Rightarrow> nat \<Rightarrow> bool" where
  "forced_topk xs k =
     list_all (\<lambda>i. list_all (\<lambda>j. j \<in> set (topk_stable xs k) \<or> xs ! j < xs ! i)
                       [0..<length xs])
       (topk_stable xs k)"

definition tie_free :: "nat \<Rightarrow> real list list \<Rightarrow> int list list \<Rightarrow> bool" where
  "tie_free k scs gis =
     list_all (\<lambda>(sc, gi). list_all (\<lambda>g. forced_topk (instance_scores sc gi g) k) (torch_unique gi))
       (zip scs gis)"


text \<open>Every marked position is a foreground position.\<close>

definition marks_only_foreground :: "bool list \<Rightarrow> bool list \<Rightarrow> bool" where
  "marks_only_foreground m fg_row = list_all2 (\<lambda>s f. f \<or> \<not> s) m fg_row"

section \<open>Auxiliary facts\<close>

lemma sum_list_nth_lessThan: "sum_list xs = (\<Sum>i<length xs. xs ! i)"
  by (simp add: sum_list_sum_nth atLeast0LessThan)

lemma sum_list_concat_map: "sum_list (concat xss) = sum_list (map sum_list xss)"
  for xss :: "real list list"
  by (induction xss) simp_all

lemma tensor_sum_nth:
  "tensor_sum t = (\<Sum>b<length t. \<Sum>i<length (t ! b). \<Sum>c<length (t ! b ! i). t ! b ! i ! c)"
proof -
  have "tensor_sum t = sum_list (map (\<lambda>r. sum_list (map sum_list r)) t)"
    by (simp add: tensor_sum_def sum_list_concat_map map_concat comp_def)
  also have "\<dots> = (\<Sum>b<length t. \<Sum>i<length (t ! b). \<Sum>c<length (t ! b ! i). t ! b ! i ! c)"
    by (simp add: sum_list_nth_lessThan)
  finally show ?thesis .
qed

lemma bce_nth:
  assumes "same_shape3 p t"
  shows "(\<Sum>b<length (bce p t). \<Sum>i<length (bce p t ! b). \<Sum>c<length (bce p t ! b ! i).
            bce p t ! b ! i ! c)
     = (\<Sum>b<length p. \<Sum>i<length (p ! b). \<Sum>c<length (p ! b ! i).
         bce_with_logits (p ! b ! i ! c) (t ! b ! i ! c))"
proof -
  have l1: "length t = length p" using assms by (simp add: same_shape3_def list_all2_lengthD)
  have l2: "length (t ! b) = length (p ! b)" if "b < length p" for b
    using assms that by (simp add: same_shape3_def list_all2_conv_all_nth)
  have l3: "length (t ! b ! i) = length (p ! b ! i)" if "b < length p" "i < length (p ! b)" for b i
    using assms that by (simp add: same_shape3_def list_all2_conv_all_nth)
  show ?thesis
    unfolding bce_def using l1 l2 l3
    by (auto intro!: sum.cong)
qed

lemma select_row_sum:
  "length xs = length ws \<Longrightarrow> length ws = length m \<Longrightarrow>
   sum_list (map2 f (map fst (filter snd (zip xs m))) (map fst (filter snd (zip ws m))))
     = (\<Sum>i<length m. if m ! i then f (xs ! i) (ws ! i) else (0::real))"
proof (induction xs ws m rule: list_induct3)
  case Nil
  then show ?case by simp
next
  case (Cons x xs w ws b m)
  then show ?case
    by (simp add: sum.lessThan_Suc_shift comp_def del: sum.lessThan_Suc cong: if_cong)
qed

lemma select_row_length:
  "length xs = length ws \<Longrightarrow> length ws = length m \<Longrightarrow>
   length (map fst (filter snd (zip xs m))) = length (map fst (filter snd (zip ws m)))"
  by (induction xs ws m rule: list_induct3) simp_all

lemma mask_select_sum:
  "same_shape2 X fg \<Longrightarrow> same_shape2 W fg \<Longrightarrow>
   sum_list (map2 f (mask_select X fg) (mask_select W fg))
     = (\<Sum>b<length fg. \<Sum>i<length (fg ! b).
          if fg ! b ! i then f (X ! b ! i) (W ! b ! i) else (0::real))"
proof (induction fg arbitrary: X W)
  case Nil
  then show ?case by (simp add: mask_select_def same_shape2_def)
next
  case (Cons m fg)
  from Cons.prems obtain x X' where X: "X = x # X'" "length x = length m" "same_shape2 X' fg"
    by (auto simp: same_shape2_def list_all2_Cons2)
  from Cons.prems obtain w W' where W: "W = w # W'" "length w = length m" "same_shape2 W' fg"
    by (auto simp: same_shape2_def list_all2_Cons2)
  have "sum_list (map2 f (mask_select X (m # fg)) (mask_select W (m # fg)))
      = sum_list (map2 f (map fst (filter snd (zip x m))) (map fst (filter snd (zip w m))))
        + sum_list (map2 f (mask_select X' fg) (mask_select W' fg))"
    using select_row_length [of x w m] X(2) W(2)
    by (simp add: X(1) W(1) mask_select_def)
  also have "\<dots> = (\<Sum>i<length m. if m ! i then f (x ! i) (w ! i) else 0)
        + (\<Sum>b<length fg. \<Sum>i<length (fg ! b).
             if fg ! b ! i then f (X' ! b ! i) (W' ! b ! i) else 0)"
    using select_row_sum [of x w m f] X(2) W(2) Cons.IH [OF X(3) W(3)] by simp
  finally show ?case
    by (simp add: X(1) W(1) sum.lessThan_Suc_shift comp_def del: sum.lessThan_Suc cong: if_cong)
qed

lemma same_shape2_nth:
  "same_shape2 s t \<Longrightarrow> length s = length t \<and> (\<forall>b<length t. length (s ! b) = length (t ! b))"
  by (simp add: same_shape2_def list_all2_conv_all_nth)

lemma set_mask_select: "set (mask_select t m) \<subseteq> set (concat t)"
proof
  fix x assume "x \<in> set (mask_select t m)"
  then obtain row mrow where rm: "(row, mrow) \<in> set (zip t m)"
    and x: "x \<in> set (map fst (filter snd (zip row mrow)))"
    by (auto simp: mask_select_def)
  from x obtain f where "(x, f) \<in> set (zip row mrow)" by auto
  then have "x \<in> set row" by (rule set_zip_leftD)
  moreover have "row \<in> set t" using rm by (rule set_zip_leftD)
  ultimately show "x \<in> set (concat t)" by auto
qed

lemma select_row_map:
  "map fst (filter snd (zip (map f r) mr)) = map f (map fst (filter snd (zip r mr)))"
proof (induction r arbitrary: mr)
  case Nil
  then show ?case by simp
next
  case (Cons x r)
  then show ?case by (cases mr) simp_all
qed

lemma mask_select_map: "mask_select (map (map f) t) m = map f (mask_select t m)"
proof (induction t arbitrary: m)
  case Nil
  then show ?case by (simp add: mask_select_def)
next
  case (Cons r t)
  show ?case
  proof (cases m)
    case Nil
    then show ?thesis by (simp add: mask_select_def)
  next
    case (Cons mr m')
    with Cons.IH [of m'] show ?thesis
      by (simp add: mask_select_def select_row_map)
  qed
qed

lemma matmul_proj_expected:
  "length p = reg_max cfg \<Longrightarrow> matmul p (proj cfg) = expected_bin (reg_max cfg) p"
  by (simp add: matmul_def proj_def expected_bin_def sum_list_nth_lessThan)

lemma length_softmax: "length (softmax xs) = length xs"
  by (simp add: softmax_def)

text \<open>
  Over the reals every entry of a softmax is positive: a distribution with all its mass on
  one bin is reached only when the floating-point exponentials underflow.
\<close>

lemma softmax_positive: "p \<in> set (softmax xs) \<Longrightarrow> 0 < p"
proof -
  have pos: "0 < sum_list (map exp ys)" if "ys \<noteq> []" for ys :: "real list"
    using that
  proof (induction ys)
    case Nil
    then show ?case by simp
  next
    case (Cons y ys)
    then show ?case by (cases ys) (simp_all add: add_pos_pos)
  qed
  assume "p \<in> set (softmax xs)"
  then obtain x where "x \<in> set xs" "p = exp x / sum_list (map exp xs)"
    by (auto simp: softmax_def)
  moreover from this have "xs \<noteq> []" by auto
  ultimately show ?thesis using pos [of xs] by simp
qed

lemma decode_position:
  assumes "length ch = 4 * reg_max cfg"
  shows "map (\<lambda>side. matmul (softmax side) (proj cfg)) (view4 ch) = decode_spec (reg_max cfg) ch"
proof -
  have "matmul (softmax (take (reg_max cfg) (drop (s * reg_max cfg) ch))) (proj cfg)
      = expected_bin (reg_max cfg) (softmax (take (reg_max cfg) (drop (s * reg_max cfg) ch)))"
    if "s < 4" for s
  proof -
    have "Suc s * reg_max cfg \<le> 4 * reg_max cfg"
      using that by (intro mult_le_mono1) simp
    then have "s * reg_max cfg + reg_max cfg \<le> length ch"
      using assms by simp
    then have "length (softmax (take (reg_max cfg) (drop (s * reg_max cfg) ch))) = reg_max cfg"
      by (simp add: length_softmax)
    then show ?thesis by (rule matmul_proj_expected)
  qed
  then show ?thesis
    using assms by (simp add: view4_def decode_spec_def Let_def comp_def cong: map_cong)
qed

lemma matmul_point_mass_zero:
  "matmul (1 # replicate (reg_max cfg - 1) 0) (proj cfg) = 0"
proof (cases "reg_max cfg")
  case 0
  then show ?thesis by (simp add: matmul_def proj_def)
next
  case (Suc n)
  have "map2 (*) (replicate n (0::real)) ys = replicate (min n (length ys)) 0" for ys
    by (induction n arbitrary: ys) (simp, case_tac ys, simp_all)
  then show ?thesis
    by (simp add: matmul_def proj_def Suc upt_conv_Cons sum_list_replicate del: upt_Suc)
qed

lemma length_set_true: "length (set_true idx m) = length m"
  unfolding set_true_def by (induction idx arbitrary: m) simp_all

lemma set_true_nth:
  "i < length m \<Longrightarrow> set_true idx m ! i = (m ! i \<or> i \<in> set idx)"
  unfolding set_true_def
proof (induction idx arbitrary: m)
  case Nil
  then show ?case by simp
next
  case (Cons a idx)
  show ?case
  proof (cases "a = i")
    case True
    with Cons show ?thesis by simp
  next
    case False
    with Cons show ?thesis by auto
  qed
qed

lemma length_instance_scores:
  "length (instance_scores sc gi g) = min (length sc) (length gi)"
  by (simp add: instance_scores_def)

lemma select_instances_mask:
  "select_instances tk k sc gi insts m0 = Inr m \<Longrightarrow>
   length m = length m0 \<and>
   (\<forall>i<length m0. m ! i =
      (m0 ! i \<or> (\<exists>g\<in>set insts. i \<in> set (tk (instance_scores sc gi g) k))))"
proof (induction insts arbitrary: m0)
  case Nil
  then show ?case by simp
next
  case (Cons g insts)
  from Cons.prems have ok: "\<not> length (instance_scores sc gi g) < k"
    by (auto simp: torch_topk_def split: if_splits)
  with Cons.prems have rest:
    "select_instances tk k sc gi insts (set_true (tk (instance_scores sc gi g) k) m0) = Inr m"
    by (simp add: torch_topk_def)
  from Cons.IH [OF rest] show ?case
    by (auto simp: length_set_true set_true_nth)
qed

lemma select_instances_k:
  "select_instances tk k sc gi insts m0 = Inr m \<Longrightarrow> insts \<noteq> [] \<Longrightarrow>
   k \<le> min (length sc) (length gi)"
  by (cases insts) (auto simp: torch_topk_def length_instance_scores split: if_splits)

lemma set_torch_unique: "set (torch_unique gi) = set gi"
  by (simp add: torch_unique_def)

lemma select_image_mask:
  assumes "select_image tk k sc gi fg_row = Inr m"
  shows "length m = length fg_row"
    and "i < length fg_row \<Longrightarrow>
         m ! i = (\<exists>g\<in>set gi. i \<in> set (tk (instance_scores sc gi g) k))"
    and "gi \<noteq> [] \<Longrightarrow> k \<le> min (length sc) (length gi)"
proof -
  note m = select_instances_mask [OF assms [unfolded select_image_def]]
  show "length m = length fg_row" using m by simp
  show "m ! i = (\<exists>g\<in>set gi. i \<in> set (tk (instance_scores sc gi g) k))" if "i < length fg_row"
    using m that by (simp add: set_torch_unique)
  show "k \<le> min (length sc) (length gi)" if "gi \<noteq> []"
  proof -
    have "torch_unique gi \<noteq> []" using that set_torch_unique [of gi] by fastforce
    then show ?thesis
      using select_instances_k [OF assms [unfolded select_image_def]] by simp
  qed
qed

lemma topk_stable_is_topk: "is_topk topk_stable"
  unfolding is_topk_def
proof (intro allI impI)
  fix xs :: "real list" and k
  assume k: "k \<le> length xs"
  define L where "L = sort_key (\<lambda>i. - (xs ! i)) [0..<length xs]"
  have tk: "topk_stable xs k = take k L" by (simp add: topk_stable_def L_def)
  have setL: "set L = {..<length xs}" by (auto simp: L_def)
  have distL: "distinct L" by (simp add: L_def)
  have lenL: "length L = length xs" by (simp add: L_def)
  have "sorted (map (\<lambda>i. - (xs ! i)) L)" by (simp add: L_def)
  then have "sorted (map (\<lambda>i. - (xs ! i)) (take k L) @ map (\<lambda>i. - (xs ! i)) (drop k L))"
    by (simp flip: map_append)
  then have ord: "\<forall>a\<in>set (take k L). \<forall>b\<in>set (drop k L). xs ! b \<le> xs ! a"
    by (auto simp: sorted_append)
  have split: "set L = set (take k L) \<union> set (drop k L)"
    by (metis append_take_drop_id set_append)
  show "length (topk_stable xs k) = k \<and> distinct (topk_stable xs k) \<and>
        (\<forall>i\<in>set (topk_stable xs k). i < length xs \<and>
           (\<forall>j<length xs. j \<notin> set (topk_stable xs k) \<longrightarrow> xs ! j \<le> xs ! i))"
  proof (intro conjI ballI allI impI)
    show "length (topk_stable xs k) = k" using k lenL by (simp add: tk)
    show "distinct (topk_stable xs k)" using distL by (simp add: tk)
  next
    fix i assume "i \<in> set (topk_stable xs k)"
    then have "i \<in> set L" unfolding tk by (rule in_set_takeD)
    then show "i < length xs" using setL by simp
  next
    fix i j assume i: "i \<in> set (topk_stable xs k)" and j: "j < length xs"
      and nj: "j \<notin> set (topk_stable xs k)"
    from j have "j \<in> set L" using setL by simp
    with nj have "j \<in> set (drop k L)" using split by (auto simp: tk)
    with i ord show "xs ! j \<le> xs ! i" by (auto simp: tk)
  qed
qed

lemma instance_scores_nth:
  "i < length sc \<Longrightarrow> i < length gi \<Longrightarrow>
   instance_scores sc gi g ! i = (if gi ! i = g then sc ! i else 0)"
  by (simp add: instance_scores_def)

lemma set_instance_positions:
  "set (instance_positions gi g) = {i. i < length gi \<and> gi ! i = g}"
  by (auto simp: instance_positions_def)

lemma distinct_instance_positions: "distinct (instance_positions gi g)"
  by (simp add: instance_positions_def)




lemma embed_mask_of_nth:
  "embed_mask_of tk k scs gis fg = Inr M \<Longrightarrow> b < length gis \<Longrightarrow>
   b < length scs \<and> b < length fg \<and> b < length M \<and>
   select_image tk k (scs ! b) (gis ! b) (fg ! b) = Inr (M ! b)"
proof (induction tk k scs gis fg arbitrary: M b rule: embed_mask_of.induct)
  case (4 tk k sc scs gi gis r fg)
  from "4.prems"(1) obtain m ms where m: "select_image tk k sc gi r = Inr m"
    and ms: "embed_mask_of tk k scs gis fg = Inr ms" and M: "M = m # ms"
    by (auto split: sum.splits)
  show ?case
  proof (cases b)
    case 0
    then show ?thesis using m M by simp
  next
    case (Suc b')
    with "4.prems"(2) have "b' < length gis" by simp
    from "4.IH" [OF m ms this] show ?thesis using Suc M by simp
  qed
qed simp_all

lemma sum_list_squares_div:
  "sum_list (map (\<lambda>x. (x / c)\<^sup>2) v) = sum_list (map (\<lambda>x. x\<^sup>2) v) / c\<^sup>2" for c :: real
  by (induction v) (simp_all add: power_divide add_divide_distrib)

lemma sum_list_squares_nonneg: "0 \<le> sum_list (map (\<lambda>x. x\<^sup>2) v)" for v :: "real list"
  by (induction v) simp_all

lemma l2_norm_normalized:
  assumes "l2_norm v \<noteq> 0"
  shows "l2_norm (map (\<lambda>x. x / l2_norm v) v) = 1"
proof -
  let ?S = "sum_list (map (\<lambda>x. x\<^sup>2) v)"
  have S: "0 \<le> ?S" by (rule sum_list_squares_nonneg)
  have nz: "?S \<noteq> 0" using assms by (auto simp: l2_norm_def)
  have sq: "(l2_norm v)\<^sup>2 = ?S" using S by (simp add: l2_norm_def)
  have "l2_norm (map (\<lambda>x. x / l2_norm v) v) = sqrt (?S / (l2_norm v)\<^sup>2)"
    by (simp add: l2_norm_def comp_def sum_list_squares_div)
  also have "\<dots> = 1" using nz by (simp add: sq)
  finally show ?thesis .
qed

lemma l2_norm_zero_iff: "l2_norm v = 0 \<longleftrightarrow> list_all (\<lambda>x. x = 0) v"
proof -
  have "sum_list (map (\<lambda>x. x\<^sup>2) v) = 0 \<longleftrightarrow> list_all (\<lambda>x. x = 0) v" for v :: "real list"
  proof (induction v)
    case Nil
    then show ?case by simp
  next
    case (Cons a v)
    have "a\<^sup>2 + sum_list (map (\<lambda>x. x\<^sup>2) v) = 0 \<longleftrightarrow> a\<^sup>2 = 0 \<and> sum_list (map (\<lambda>x. x\<^sup>2) v) = 0"
      using sum_list_squares_nonneg [of v] by (intro add_nonneg_eq_0_iff) simp_all
    with Cons show ?case by simp
  qed
  then show ?thesis by (simp add: l2_norm_def)
qed

lemma l2_norm_3_4: "l2_norm [3, 4] = 5"
proof -
  have "sqrt 25 = sqrt (5\<^sup>2)" by simp
  then show ?thesis by (simp add: l2_norm_def del: real_sqrt_four)
qed

text \<open>
  Where every top-k call is forced, the selection is the same for every index function that
  meets the contract.
\<close>

lemma set_true_set_cong: "set idx = set idx' \<Longrightarrow> set_true idx m = set_true idx' m"
  by (rule nth_equalityI) (simp_all add: length_set_true set_true_nth)

lemma forced_topk_set:
  assumes tk: "is_topk tk" and k: "k \<le> length xs" and f: "forced_topk xs k"
  shows "set (tk xs k) = set (topk_stable xs k)"
proof -
  let ?S = "set (topk_stable xs k)" and ?T = "set (tk xs k)"
  from tk k have lt: "length (tk xs k) = k" and dt: "distinct (tk xs k)"
    and rt: "\<And>i. i \<in> ?T \<Longrightarrow> i < length xs"
    and ot: "\<And>i j. i \<in> ?T \<Longrightarrow> j < length xs \<Longrightarrow> j \<notin> ?T \<Longrightarrow> xs ! j \<le> xs ! i"
    unfolding is_topk_def by metis+
  from topk_stable_is_topk k have ls: "length (topk_stable xs k) = k"
    and ds: "distinct (topk_stable xs k)"
    and rs: "\<And>i. i \<in> ?S \<Longrightarrow> i < length xs"
    unfolding is_topk_def by metis+
  have strict: "xs ! j < xs ! i" if "i \<in> ?S" "j < length xs" "j \<notin> ?S" for i j
    using f that by (fastforce simp: forced_topk_def list_all_iff)
  have cT: "card ?T = k" using lt dt by (simp add: distinct_card)
  have cS: "card ?S = k" using ls ds by (simp add: distinct_card)
  have "?T \<subseteq> ?S"
  proof (rule ccontr)
    assume "\<not> ?T \<subseteq> ?S"
    then obtain j where j: "j \<in> ?T" "j \<notin> ?S" by blast
    have "\<not> ?S \<subseteq> ?T"
    proof
      assume "?S \<subseteq> ?T"
      with j have "?S \<subset> ?T" by blast
      then have "card ?S < card ?T" by (simp add: psubset_card_mono)
      with cS cT show False by simp
    qed
    then obtain i where i: "i \<in> ?S" "i \<notin> ?T" by blast
    have "xs ! j < xs ! i" using strict i(1) j rt by blast
    moreover have "xs ! i \<le> xs ! j" using ot j(1) i rs by blast
    ultimately show False by simp
  qed
  then show ?thesis using cS cT by (simp add: card_subset_eq)
qed

lemma select_instances_tie_free:
  assumes tk: "is_topk tk"
    and f: "list_all (\<lambda>g. forced_topk (instance_scores sc gi g) k) insts"
  shows "select_instances tk k sc gi insts m = select_instances topk_stable k sc gi insts m"
  using f
proof (induction insts arbitrary: m)
  case Nil
  then show ?case by simp
next
  case (Cons g insts)
  show ?case
  proof (cases "length (instance_scores sc gi g) < k")
    case True
    then show ?thesis by (simp add: torch_topk_def)
  next
    case False
    then have "set (tk (instance_scores sc gi g) k) = set (topk_stable (instance_scores sc gi g) k)"
      using Cons.prems by (intro forced_topk_set [OF tk]) simp_all
    then have "set_true (tk (instance_scores sc gi g) k) m
        = set_true (topk_stable (instance_scores sc gi g) k) m"
      by (rule set_true_set_cong)
    with False Cons show ?thesis by (simp add: torch_topk_def)
  qed
qed

lemma embed_mask_of_tie_free:
  "is_topk tk \<Longrightarrow> tie_free k scs gis \<Longrightarrow>
   embed_mask_of tk k scs gis fg = embed_mask_of topk_stable k scs gis fg"
proof (induction tk k scs gis fg rule: embed_mask_of.induct)
  case (4 tk k sc scs gi gis r fg)
  from "4.prems"(2) have here: "list_all (\<lambda>g. forced_topk (instance_scores sc gi g) k) (torch_unique gi)"
    and rest: "tie_free k scs gis"
    by (simp_all add: tie_free_def)
  have img: "select_image tk k sc gi r = select_image topk_stable k sc gi r"
    unfolding select_image_def by (rule select_instances_tie_free [OF "4.prems"(1) here])
  show ?case
  proof (cases "select_image topk_stable k sc gi r")
    case (Inl e)
    then show ?thesis using img by simp
  next
    case (Inr m)
    with img have "select_image tk k sc gi r = Inr m" by simp
    from "4.IH" [OF this "4.prems"(1) rest] Inr img show ?thesis by simp
  qed
qed simp_all

lemma normalize_row_cases:
  "case normalize_row v of
     None \<Rightarrow> list_all (\<lambda>x. x = 0) v
   | Some u \<Rightarrow> list_ex (\<lambda>x. x \<noteq> 0) v \<and> l2_norm u = 1"
proof (cases "l2_norm v = 0")
  case True
  then show ?thesis by (simp add: normalize_row_def l2_norm_zero_iff)
next
  case False
  then have "list_ex (\<lambda>x. x \<noteq> 0) v"
    by (auto simp: l2_norm_zero_iff list_all_iff list_ex_iff)
  with False show ?thesis by (simp add: normalize_row_def l2_norm_normalized)
qed

section \<open>The claims\<close>

subsection \<open>Preprocessing of an annotation-free batch\<close>

text \<open>
  Claim C10. For a target tensor with zero rows (and a row width of at least one, the image
  index column), \<open>preprocess\<close> and \<open>preprocess_embedding\<close> both return the zero tensor of
  shape \<open>(batch_size, 0, row_width - 1)\<close>, whose data is \<open>batch_size\<close> empty blocks. The
  result of \<open>preprocess\<close> is the same for every scale tensor: the rescaling step is not run.
\<close>

theorem preprocess_zero_rows:
  assumes "t2rows targets = []" and "1 \<le> t2cols targets"
  shows "preprocess targets batch_size scale_tensor
           = Inr \<lparr>t3shape = (batch_size, 0, t2cols targets - 1),
                  t3data = replicate batch_size []\<rparr>
       \<and> preprocess_embedding targets batch_size
           = Inr \<lparr>t3shape = (batch_size, 0, t2cols targets - 1),
                  t3data = replicate batch_size []\<rparr>
       \<and> preprocess targets batch_size scale_tensor = Inr (zeros3 batch_size 0 (t2cols targets - 1))"
  using assms by (simp add: preprocess_def preprocess_embedding_def zeros3_def)

theorem preprocess_zero_rows_witness:
  "preprocess \<lparr>t2rows = [], t2cols = 6\<rparr> 2 (640, 480, 640, 480)
     = Inr \<lparr>t3shape = (2, 0, 5), t3data = [[], []]\<rparr>
   \<and> preprocess_embedding \<lparr>t2rows = [], t2cols = 6\<rparr> 2
     = Inr \<lparr>t3shape = (2, 0, 5), t3data = [[], []]\<rparr>"
  using preprocess_zero_rows [of "\<lparr>t2rows = [], t2cols = 6\<rparr>" 2 "(640, 480, 640, 480)"]
  by (simp add: numeral_2_eq_2)

text \<open>
  With rows, the targets are grouped by image and padded with zero rows: an image without
  instances keeps a zero block, and the box columns go from normalised centre and size to
  absolute corners.
\<close>

lemma preprocess_embedding_example:
  "preprocess_embedding \<lparr>t2rows = [[1, 5, 6], [1, 7, 8], [1, 9, 10]], t2cols = 3\<rparr> 2
     = Inr \<lparr>t3shape = (2, 3, 2),
            t3data = [[[0, 0], [0, 0], [0, 0]], [[5, 6], [7, 8], [9, 10]]]\<rparr>"
  by (simp add: preprocess_embedding_def max_count_def image_block_def Let_def upt_rec numeral_3_eq_3)

lemma preprocess_example:
  "preprocess \<lparr>t2rows = [[0, 2, 1 / 2, 1 / 2, 1 / 2, 1 / 2]], t2cols = 6\<rparr> 1 (640, 480, 640, 480)
     = Inr \<lparr>t3shape = (1, 1, 5), t3data = [[[2, 160, 120, 480, 360]]]\<rparr>"
  by (simp add: preprocess_def max_count_def image_block_def rescale_row_def Let_def)

subsection \<open>Box decoding\<close>

text \<open>
  Claim C7. With \<open>R = reg_max > 1\<close> and \<open>4 * R\<close> logits at every position, \<open>bbox_decode\<close>
  returns what \<^verbatim>\<open>dist2bbox\<close> makes of the anchor points and the offsets \<open>decode_spec\<close>: per
  side, the softmax of the side's \<open>R\<close> logits weighted by the bin indices \<open>0, ..., R - 1\<close>.
  The projection of the distribution that puts probability 1 on bin 0 is exactly 0, so a
  side with that distribution decodes to the offset 0.
\<close>

theorem bbox_decode_expected_offsets:
  assumes "1 < reg_max cfg"
    and "list_all (list_all (\<lambda>ch. length ch = 4 * reg_max cfg)) pred_dist"
  shows "bbox_decode cfg d2b anchor_points pred_dist
           = Inr (d2b (map (map (decode_spec (reg_max cfg))) pred_dist) anchor_points)
       \<and> matmul (1 # replicate (reg_max cfg - 1) 0) (proj cfg) = 0"
proof -
  have shape: "list_all (list_all (\<lambda>ch. 4 * (length ch div 4) = length ch
                                      \<and> length ch div 4 = length (proj cfg))) pred_dist"
    using assms(2) by (auto simp: list_all_iff proj_def)
  have eq: "map (map (\<lambda>ch. map (\<lambda>side. matmul (softmax side) (proj cfg)) (view4 ch))) pred_dist
      = map (map (decode_spec (reg_max cfg))) pred_dist"
    using assms(2) by (auto simp: list_all_iff decode_position)
  have dec: "bbox_decode cfg d2b anchor_points pred_dist
      = Inr (d2b (map (map (\<lambda>ch. map (\<lambda>side. matmul (softmax side) (proj cfg)) (view4 ch)))
                   pred_dist) anchor_points)"
    using assms(1) shape by (simp add: bbox_decode_def use_dfl_def)
  show ?thesis
    unfolding dec eq using matmul_point_mass_zero [of cfg] by simp
qed

theorem bbox_decode_expected_offsets_witness:
  "bbox_decode \<lparr>box_gain = 15 / 2, cls_gain = 1 / 2, dfl_gain = 3 / 2, embed_gain = 1, reg_max = 2\<rparr>
      (\<lambda>d a. d) [[1 / 2, 1 / 2]] [[[0, 0, 0, 0, 0, 0, 0, 0]]]
     = Inr [[decode_spec 2 [0, 0, 0, 0, 0, 0, 0, 0]]]
   \<and> matmul [1, 0]
        (proj \<lparr>box_gain = 15 / 2, cls_gain = 1 / 2, dfl_gain = 3 / 2, embed_gain = 1, reg_max = 2\<rparr>)
     = 0"
  using bbox_decode_expected_offsets
    [of "\<lparr>box_gain = 15 / 2, cls_gain = 1 / 2, dfl_gain = 3 / 2, embed_gain = 1, reg_max = 2\<rparr>"
        "[[[0, 0, 0, 0, 0, 0, 0, 0]]]" "\<lambda>d a. d" "[[1 / 2, 1 / 2]]"]
  by simp

subsection \<open>Classification loss\<close>

text \<open>
  Claim C5. The classification term of \<^verbatim>\<open>__call__\<close> is the element-wise binary cross-entropy
  with logits between all predicted and target class scores, summed over every position and
  class, divided by the maximum of the sum of all target class scores and 1; the divisor is
  at least 1.
\<close>

theorem cls_loss_is_normalised_bce:
  assumes "same_shape3 pred_scores tgt_scores"
  shows "cls_loss pred_scores tgt_scores = cls_loss_spec pred_scores tgt_scores
       \<and> 1 \<le> get_target_scores_sum tgt_scores"
  unfolding cls_loss_def cls_loss_spec_def get_target_scores_sum_def
  using bce_nth [OF assms] by (simp add: tensor_sum_nth)

theorem cls_loss_is_normalised_bce_witness:
  "same_shape3 [[[0, 1], [2, 3 :: real]]] [[[1 / 2, 0], [0, 1 / 4 :: real]]]
   \<and> cls_loss [[[0, 1], [2, 3]]] [[[1 / 2, 0], [0, 1 / 4]]]
       = cls_loss_spec [[[0, 1], [2, 3]]] [[[1 / 2, 0], [0, 1 / 4]]]
   \<and> get_target_scores_sum [[[1 / 2, 0], [0, 1 / 4]]] = 1"
proof -
  have sh: "same_shape3 [[[0, 1], [2, 3 :: real]]] [[[1 / 2, 0], [0, 1 / 4 :: real]]]"
    by (simp add: same_shape3_def)
  have fl: "get_target_scores_sum [[[1 / 2, 0], [0, 1 / 4]]] = 1"
    by (simp add: get_target_scores_sum_def tensor_sum_def)
  note th = cls_loss_is_normalised_bce [OF sh]
  show ?thesis
    by (intro conjI) (fact sh, rule th [THEN conjunct1], fact fl)
qed

subsection \<open>Localization loss\<close>

text \<open>
  Claim C6. The localization loss that \<^verbatim>\<open>BboxLoss.forward\<close> returns is the sum over the
  foreground positions of the position's weight, the sum of its target class scores, times
  one minus the complete IoU of its predicted and target box, divided by the normalization
  sum; positions outside the foreground mask contribute nothing.
\<close>

theorem forward_loss_iou:
  assumes "same_shape2 pred_bboxes fg" and "same_shape2 tgt_bboxes fg"
    and "same_shape2 tgt_scores fg"
  shows "fst (forward ex R pred_dist pred_bboxes anchor_points tgt_bboxes tgt_scores tss fg)
       = loc_loss_spec (bbox_iou ex) pred_bboxes tgt_bboxes tgt_scores tss fg"
proof -
  let ?iou = "map2 (map2 (bbox_iou ex)) pred_bboxes tgt_bboxes"
  let ?w = "map (map sum_list) tgt_scores"
  note p = same_shape2_nth [OF assms(1)] and t = same_shape2_nth [OF assms(2)]
    and s = same_shape2_nth [OF assms(3)]
  have iou: "same_shape2 ?iou fg"
    using p t by (simp add: same_shape2_def list_all2_conv_all_nth)
  have w: "same_shape2 ?w fg"
    using s by (simp add: same_shape2_def list_all2_conv_all_nth)
  have "sum_list (map2 (\<lambda>i w. (1 - i) * w) (mask_select ?iou fg) (mask_select ?w fg))
      = (\<Sum>b<length fg. \<Sum>i<length (fg ! b).
           if fg ! b ! i then (1 - ?iou ! b ! i) * (?w ! b ! i) else 0)"
    by (rule mask_select_sum [OF iou w])
  also have "\<dots> = (\<Sum>b<length fg. \<Sum>i<length (fg ! b).
        if fg ! b ! i
        then (\<Sum>c<length (tgt_scores ! b ! i). tgt_scores ! b ! i ! c)
             * (1 - bbox_iou ex (pred_bboxes ! b ! i) (tgt_bboxes ! b ! i))
        else 0)"
    using p t s by (auto intro!: sum.cong simp: sum_list_nth_lessThan)
  finally show ?thesis
    by (simp add: forward_def loc_loss_spec_def Let_def)
qed

theorem forward_loss_iou_witness:
  "same_shape2 [[[0, 0, 2, 2], [1, 1, 3, 3 :: real]]] [[True, False]]
   \<and> fst (forward \<lparr>bbox_iou = (\<lambda>p t. 1 / 2), bbox2dist = (\<lambda>a t n. t), dfl_loss = (\<lambda>n p t. []),
                    dist2bbox = (\<lambda>d a. d), topk = topk_stable, kd_loss = (\<lambda>p t. 0),
                    rkd_loss = (\<lambda>t p. 0)\<rparr>
             1 [[[0, 0, 0, 0], [0, 0, 0, 0]]] [[[0, 0, 2, 2], [1, 1, 3, 3]]]
             [[1 / 2, 1 / 2], [3 / 2, 1 / 2]] [[[0, 0, 2, 2], [0, 0, 0, 0]]]
             [[[1 / 2], [0]]] 1 [[True, False]])
       = loc_loss_spec (\<lambda>p t. 1 / 2) [[[0, 0, 2, 2], [1, 1, 3, 3]]]
           [[[0, 0, 2, 2], [0, 0, 0, 0]]] [[[1 / 2], [0]]] 1 [[True, False]]
   \<and> loc_loss_spec (\<lambda>p t. 1 / 2) [[[0, 0, 2, 2], [1, 1, 3, 3]]]
           [[[0, 0, 2, 2], [0, 0, 0, 0]]] [[[1 / 2], [0]]] 1 [[True, False]] = 1 / 4"
proof -
  have s1: "same_shape2 [[[0, 0, 2, 2], [1, 1, 3, 3 :: real]]] [[True, False]]"
    and s2: "same_shape2 [[[0, 0, 2, 2], [0, 0, 0, 0 :: real]]] [[True, False]]"
    and s3: "same_shape2 [[[1 / 2], [0 :: real]]] [[True, False]]"
    by (simp_all add: same_shape2_def)
  have v: "loc_loss_spec (\<lambda>p t. 1 / 2) [[[0, 0, 2, 2], [1, 1, 3, 3]]]
           [[[0, 0, 2, 2], [0, 0, 0, 0]]] [[[1 / 2], [0]]] 1 [[True, False]] = 1 / 4"
    by (simp add: loc_loss_spec_def)
  from forward_loss_iou [OF s1 s2 s3] s1 v show ?thesis by simp
qed

subsection \<open>A batch without foreground positions\<close>

text \<open>
  Claim C1 asks that a call on a batch whose foreground mask is entirely false returns, with
  zero localization, distribution and embedding terms. The code does not return: after box
  decoding the call ends in the \<open>UnboundLocalError\<close> of the unbound \<^verbatim>\<open>iou_scores\<close>,
  whatever the other inputs are.
\<close>

theorem call_without_foreground_raises:
  assumes "fg_sum (fg_mask asg) = 0"
  shows "call cfg ex embed_topk pred_scores pred_distri pred_embeds anchor_points stride_tensor asg
           = (case bbox_decode cfg (dist2bbox ex) anchor_points pred_distri of
                Inl e \<Rightarrow> Inl e
              | Inr pred_bboxes \<Rightarrow> Inl UnboundLocalError)
       \<and> isl (call cfg ex embed_topk pred_scores pred_distri pred_embeds anchor_points
                 stride_tensor asg)"
  using assms by (simp add: call_def Let_def split: sum.splits)

theorem call_without_foreground_raises_witness:
  "fg_sum (fg_mask \<lparr>target_bboxes = [[[0, 0, 0, 0], [0, 0, 0, 0]]],
                    target_scores = [[[0], [0]]],
                    target_embeds = [[[0, 0], [0, 0]]],
                    fg_mask = [[False, False]],
                    target_gt_idx = [[0, 0]]\<rparr>) = 0
   \<and> call \<lparr>box_gain = 15 / 2, cls_gain = 1 / 2, dfl_gain = 3 / 2, embed_gain = 1, reg_max = 1\<rparr>
          \<lparr>bbox_iou = (\<lambda>p t. 0), bbox2dist = (\<lambda>a t n. t), dfl_loss = (\<lambda>n p t. []),
           dist2bbox = (\<lambda>d a. d), topk = topk_stable, kd_loss = (\<lambda>p t. 0),
           rkd_loss = (\<lambda>t p. 0)\<rparr>
          3 [[[0], [0]]] [[[1, 1, 1, 1], [1, 1, 1, 1]]] [[[1, 0], [0, 1]]]
          [[1 / 2, 1 / 2], [3 / 2, 1 / 2]] [8, 8]
          \<lparr>target_bboxes = [[[0, 0, 0, 0], [0, 0, 0, 0]]],
           target_scores = [[[0], [0]]],
           target_embeds = [[[0, 0], [0, 0]]],
           fg_mask = [[False, False]],
           target_gt_idx = [[0, 0]]\<rparr>
       = Inl UnboundLocalError"
proof -
  let ?asg = "\<lparr>target_bboxes = [[[0, 0, 0, 0], [0, 0, 0, 0]]],
           target_scores = [[[0], [0]]],
           target_embeds = [[[0, 0], [0, 0]]],
           fg_mask = [[False, False]],
           target_gt_idx = [[0, 0]]\<rparr> :: assignment"
  have fg: "fg_sum (fg_mask ?asg) = 0" by (simp add: fg_sum_def)
  show ?thesis
    using fg call_without_foreground_raises [OF fg]
    by (simp add: bbox_decode_def use_dfl_def)
qed

text \<open>
  Claim C8 asks for a non-negative finite total and four non-negative terms on every valid
  input. On the batch without annotations below (one image, one position, \<open>reg_max = 2\<close>,
  the default gains) the call raises and returns no loss at all.
\<close>

theorem call_empty_batch_raises:
  "call \<lparr>box_gain = 15 / 2, cls_gain = 1 / 2, dfl_gain = 3 / 2, embed_gain = 1, reg_max = 2\<rparr>
        ex 3 [[[0]]] [[[0, 0, 0, 0, 0, 0, 0, 0]]] [[[1, 0]]] [[1 / 2, 1 / 2]] [8]
        \<lparr>target_bboxes = [[[0, 0, 0, 0]]], target_scores = [[[0]]], target_embeds = [[[0, 0]]],
         fg_mask = [[False]], target_gt_idx = [[0]]\<rparr>
     = Inl UnboundLocalError"
  by (simp add: call_def bbox_decode_def use_dfl_def proj_def fg_sum_def Let_def)

subsection \<open>The terms of a call that returns\<close>

text \<open>
  When the call returns, its four terms and their sum are non-negative, provided the gains
  are non-negative, the target scores lie in \<open>[0, 1]\<close>, the IoU is at most 1 and the
  distribution and embedding losses of the primitives are non-negative.
\<close>

lemma sigmoid_bounds: "0 < sigmoid x \<and> sigmoid x < 1"
proof -
  have "0 < exp (- x)" by simp
  then show ?thesis by (simp add: sigmoid_def add_pos_pos)
qed

lemma bce_with_logits_nonneg:
  assumes "0 \<le> z" and "z \<le> 1"
  shows "0 \<le> bce_with_logits x z"
proof -
  have "ln (sigmoid x) \<le> 0" using sigmoid_bounds [of x] by simp
  then have a: "z * ln (sigmoid x) \<le> 0" using assms(1) by (simp add: mult_nonneg_nonpos)
  have "ln (1 - sigmoid x) \<le> 0" using sigmoid_bounds [of x] by simp
  then have b: "(1 - z) * ln (1 - sigmoid x) \<le> 0"
    using assms(2) by (simp add: mult_nonneg_nonpos)
  from a b show ?thesis by (simp add: bce_with_logits_def)
qed

lemma list_all_map2:
  "list_all Q ys \<Longrightarrow> (\<And>x y. Q y \<Longrightarrow> P (f x y)) \<Longrightarrow> list_all P (map2 f xs ys)"
  by (auto simp: list_all_iff dest: set_zip_rightD)

lemma tensor_sum_nonneg:
  "list_all (list_all (list_all (\<lambda>x. 0 \<le> x))) t \<Longrightarrow> 0 \<le> tensor_sum t"
  unfolding tensor_sum_def by (rule sum_list_nonneg) (auto simp: list_all_iff)

lemma cls_loss_nonneg:
  assumes "list_all (list_all (list_all (\<lambda>z. 0 \<le> z \<and> z \<le> 1))) t"
  shows "0 \<le> cls_loss p t"
proof -
  have l1: "list_all (\<lambda>x. 0 \<le> x) (map2 bce_with_logits q r)"
    if "list_all (\<lambda>z. 0 \<le> z \<and> z \<le> 1) r" for q r
    using that by (rule list_all_map2) (simp add: bce_with_logits_nonneg)
  have l2: "list_all (list_all (\<lambda>x. 0 \<le> x)) (map2 (map2 bce_with_logits) q r)"
    if "list_all (list_all (\<lambda>z. 0 \<le> z \<and> z \<le> 1)) r" for q r
    using that by (rule list_all_map2) (rule l1)
  have "list_all (list_all (list_all (\<lambda>x. 0 \<le> x))) (bce p t)"
    unfolding bce_def using assms by (rule list_all_map2) (rule l2)
  then have "0 \<le> tensor_sum (bce p t)" by (rule tensor_sum_nonneg)
  moreover have "0 < get_target_scores_sum t" by (simp add: get_target_scores_sum_def)
  ultimately show ?thesis by (simp add: cls_loss_def)
qed

lemma list_all_mask_select: "list_all (list_all P) t \<Longrightarrow> list_all P (mask_select t m)"
  using set_mask_select [of t m] by (auto simp: list_all_iff)

lemma sum_list_map2_nonneg:
  "list_all P xs \<Longrightarrow> list_all Q ys \<Longrightarrow> (\<And>x y. P x \<Longrightarrow> Q y \<Longrightarrow> 0 \<le> f x y) \<Longrightarrow>
   0 \<le> sum_list (map2 f xs ys)" for f :: "'a \<Rightarrow> 'b \<Rightarrow> real"
  by (rule sum_list_nonneg) (auto simp: list_all_iff elim!: in_set_zipE)

lemma forward_nonneg:
  assumes iou: "\<And>p t. bbox_iou ex p t \<le> 1"
    and dfl: "\<And>n p t. list_all (\<lambda>x. 0 \<le> x) (dfl_loss ex n p t)"
    and ts: "list_all (list_all (list_all (\<lambda>z. 0 \<le> z \<and> z \<le> 1))) tgt_scores"
    and tss: "0 < tss"
  shows "0 \<le> fst (forward ex R pd pb ap tb tgt_scores tss fg)
       \<and> 0 \<le> fst (snd (forward ex R pd pb ap tb tgt_scores tss fg))"
proof -
  let ?w = "mask_select (map (map sum_list) tgt_scores) fg"
  let ?i = "mask_select (map2 (map2 (bbox_iou ex)) pb tb) fg"
  have "list_all (list_all (\<lambda>w. 0 \<le> w)) (map (map sum_list) tgt_scores)"
    using ts by (auto simp: list_all_iff intro!: sum_list_nonneg)
  then have w: "list_all (\<lambda>w. 0 \<le> w) ?w" by (rule list_all_mask_select)
  have "list_all (list_all (\<lambda>i. i \<le> 1)) (map2 (map2 (bbox_iou ex)) pb tb)"
    using iou by (auto simp: list_all_iff elim!: in_set_zipE)
  then have i: "list_all (\<lambda>i. i \<le> 1) ?i" by (rule list_all_mask_select)
  have a: "0 \<le> sum_list (map2 (\<lambda>i w. (1 - i) * w) ?i ?w)"
    using i w by (rule sum_list_map2_nonneg) simp
  have b: "0 \<le> sum_list (map2 (*) (dfl_loss ex n p t) ?w)" for n p t
    using dfl [of n p t] w by (rule sum_list_map2_nonneg) simp
  from a b tss show ?thesis by (simp add: forward_def Let_def)
qed

lemma call_terms_nonneg:
  assumes gains: "0 \<le> box_gain cfg" "0 \<le> cls_gain cfg" "0 \<le> dfl_gain cfg" "0 \<le> embed_gain cfg"
    and iou: "\<And>p t. bbox_iou ex p t \<le> 1"
    and dfl: "\<And>n p t. list_all (\<lambda>x. 0 \<le> x) (dfl_loss ex n p t)"
    and kd: "\<And>p t. 0 \<le> kd_loss ex p t" and rkd: "\<And>t p. 0 \<le> rkd_loss ex t p"
    and ts: "list_all (list_all (list_all (\<lambda>z. 0 \<le> z \<and> z \<le> 1))) (target_scores asg)"
    and res: "call cfg ex embed_topk pred_scores pred_distri pred_embeds anchor_points
                stride_tensor asg = Inr (tot, loss, fg)"
  shows "length loss = 4 \<and> list_all (\<lambda>x. 0 \<le> x) loss \<and> tot = sum_list loss \<and> 0 \<le> tot
       \<and> fg = fg_mask asg \<and> 0 < fg_sum fg"
proof -
  from res obtain pbx where dec: "bbox_decode cfg (dist2bbox ex) anchor_points pred_distri = Inr pbx"
    by (auto simp: call_def Let_def split: sum.splits)
  from res dec have nz: "fg_sum (fg_mask asg) \<noteq> 0"
    by (auto simp: call_def Let_def split: if_splits)
  let ?tss = "get_target_scores_sum (target_scores asg)"
  let ?tb = "map (\<lambda>row. map2 (\<lambda>box s. map (\<lambda>x. x / s) box) row stride_tensor) (target_bboxes asg)"
  let ?f = "forward ex (reg_max cfg) pred_distri pbx anchor_points ?tb (target_scores asg) ?tss
              (fg_mask asg)"
  have tss: "0 < ?tss" by (simp add: get_target_scores_sum_def)
  note f = forward_nonneg [OF iou dfl ts tss, of "reg_max cfg" pred_distri pbx anchor_points ?tb "fg_mask asg"]
  have c: "0 \<le> cls_loss pred_scores (target_scores asg)" using ts by (rule cls_loss_nonneg)
  obtain l0 l2 io where fe: "?f = (l0, l2, io)" by (cases ?f) auto
  with f have l0: "0 \<le> l0" and l2: "0 \<le> l2" by simp_all
  from res dec nz fe obtain em where
    loss: "loss = [l0 * box_gain cfg, cls_loss pred_scores (target_scores asg) * cls_gain cfg,
                   l2 * dfl_gain cfg,
                   (kd_loss ex (mask_select (normalize_embeds pred_embeds) em)
                               (mask_select (target_embeds asg) em)
                    + rkd_loss ex (mask_select (target_embeds asg) em)
                               (mask_select (normalize_embeds pred_embeds) em)) * embed_gain cfg]"
    and toteq: "tot = sum_list loss" and fgm: "fg = fg_mask asg"
    by (auto simp: call_def Let_def split: sum.splits)
  have "list_all (\<lambda>x. 0 \<le> x) loss"
    using l0 l2 c gains kd rkd by (simp add: loss add_nonneg_nonneg)
  moreover from this have "0 \<le> tot" unfolding toteq
    by (intro sum_list_nonneg) (simp add: list_all_iff)
  ultimately show ?thesis using loss toteq fgm nz by simp
qed

text \<open>A call that returns: one image, three positions, two of them foreground.\<close>

lemma call_with_foreground_example:
  "call \<lparr>box_gain = 15 / 2, cls_gain = 1 / 2, dfl_gain = 3 / 2, embed_gain = 1, reg_max = 1\<rparr>
        \<lparr>bbox_iou = (\<lambda>p t. 1 / 2), bbox2dist = (\<lambda>a t n. t), dfl_loss = (\<lambda>n p t. []),
         dist2bbox = (\<lambda>d a. d), topk = topk_stable, kd_loss = (\<lambda>p t. 1 / 4),
         rkd_loss = (\<lambda>t p. 1 / 4)\<rparr>
        3 [[[0], [0], [0]]] [[[1, 1, 1, 1], [1, 1, 1, 1], [1, 1, 1, 1]]]
        [[[3, 4], [1, 0], [0, 1]]] [[1 / 2, 1 / 2], [3 / 2, 1 / 2], [5 / 2, 1 / 2]] [8, 8, 8]
        \<lparr>target_bboxes = [[[0, 0, 16, 16], [0, 0, 16, 16], [0, 0, 0, 0]]],
         target_scores = [[[1 / 2], [1 / 2], [0]]],
         target_embeds = [[[1, 0], [1, 0], [0, 0]]],
         fg_mask = [[True, True, False]],
         target_gt_idx = [[0, 0, -1]]\<rparr>
     = Inr (15 / 4 + 3 / 2 * ln 2 + 1 / 2, [15 / 4, 3 / 2 * ln 2, 0, 1 / 2], [[True, True, False]])"
proof -
  have em: "embed_mask_of topk_stable 3 [[1 / 4, 1 / 4, 0]] [[0, 0, -1]] [[True, True, False]]
      = Inr [[True, True, True]]"
    by code_simp
  have b: "bce_with_logits 0 z = ln 2" for z
    by (simp add: bce_with_logits_def sigmoid_def ln_div algebra_simps)
  show ?thesis
    by (simp add: call_def bbox_decode_def use_dfl_def fg_sum_def forward_def iou_cls_def
        mask_select_def cls_loss_def get_target_scores_sum_def tensor_sum_def bce_def b em
        normalize_embeds_def Let_def del: embed_mask_of.simps)
qed

subsection \<open>Selection of the positions of the embedding loss\<close>



text \<open>
  The masks of the two inputs above, and of the first input below, are forced: every index
  function that meets the contract yields them.
\<close>

lemma embed_mask_examples_any_topk:
  assumes "is_topk tk"
  shows "embed_mask_of tk 2 [[4/5, 3/5, 2/5, 1/2, 1/4]] [[0, 0, 0, 1, 1]]
           [[True, True, True, True, True]] = Inr [[True, True, False, True, True]]"
    and "embed_mask_of tk 3 [[1/2, 0, 0]] [[0, -1, -1]] [[True, False, False]]
           = Inr [[True, True, True]]"
    and "embed_mask_of tk 2 [[- (1/5), - (2/5), 3/5, 4/5]] [[0, 0, 1, 1]]
           [[True, True, True, True]] = Inr [[False, False, True, True]]"
proof -
  have f1: "tie_free 2 [[4/5, 3/5, 2/5, 1/2, 1/4]] [[0, 0, 0, 1, 1]]"
    and f2: "tie_free 3 [[1/2, 0, 0]] [[0, -1, -1]]"
    and f3: "tie_free 2 [[- (1/5), - (2/5), 3/5, 4/5]] [[0, 0, 1, 1]]"
    by code_simp+
  have e1: "embed_mask_of topk_stable 2 [[4/5, 3/5, 2/5, 1/2, 1/4]] [[0, 0, 0, 1, 1]]
           [[True, True, True, True, True]] = Inr [[True, True, False, True, True]]"
    and e2: "embed_mask_of topk_stable 3 [[1/2, 0, 0]] [[0, -1, -1]] [[True, False, False]]
           = Inr [[True, True, True]]"
    and e3: "embed_mask_of topk_stable 2 [[- (1/5), - (2/5), 3/5, 4/5]] [[0, 0, 1, 1]]
           [[True, True, True, True]] = Inr [[False, False, True, True]]"
    by code_simp+
  show "embed_mask_of tk 2 [[4/5, 3/5, 2/5, 1/2, 1/4]] [[0, 0, 0, 1, 1]]
           [[True, True, True, True, True]] = Inr [[True, True, False, True, True]]"
    unfolding embed_mask_of_tie_free [OF assms f1] by (rule e1)
  show "embed_mask_of tk 3 [[1/2, 0, 0]] [[0, -1, -1]] [[True, False, False]]
           = Inr [[True, True, True]]"
    unfolding embed_mask_of_tie_free [OF assms f2] by (rule e2)
  show "embed_mask_of tk 2 [[- (1/5), - (2/5), 3/5, 4/5]] [[0, 0, 1, 1]]
           [[True, True, True, True]] = Inr [[False, False, True, True]]"
    unfolding embed_mask_of_tie_free [OF assms f3] by (rule e3)
qed


text \<open>
  Claim C3, as the code has it. A position of an image is marked exactly when it is among
  the indices that the top-k call for some value of the image's row of ground-truth indices
  returned. Every value \<open>g\<close> of the row is iterated, whatever it stands for: its call
  returns \<open>k\<close> distinct positions, and each of them is marked. A position whose masked
  score in the call for \<open>g\<close> is not zero has the ground-truth index \<open>g\<close>; the other
  positions returned have the masked score 0.
\<close>

theorem embed_mask_marked_iff:
  assumes tk: "is_topk tk"
    and res: "embed_mask_of tk k iou_cls_scores gt_idx fg = Inr embed_mask"
    and b: "b < length gt_idx"
    and len: "length (iou_cls_scores ! b) = length (gt_idx ! b)"
             "length (fg ! b) = length (gt_idx ! b)"
    and g: "g \<in> set (gt_idx ! b)"
    and i: "i < length (gt_idx ! b)"
  shows "embed_mask ! b ! i
           = (\<exists>g'\<in>set (gt_idx ! b).
                i \<in> set (tk (instance_scores (iou_cls_scores ! b) (gt_idx ! b) g') k))
       \<and> length (tk (instance_scores (iou_cls_scores ! b) (gt_idx ! b) g) k) = k
       \<and> distinct (tk (instance_scores (iou_cls_scores ! b) (gt_idx ! b) g) k)
       \<and> list_all (\<lambda>j. j < length (gt_idx ! b) \<and> embed_mask ! b ! j)
           (tk (instance_scores (iou_cls_scores ! b) (gt_idx ! b) g) k)
       \<and> (instance_scores (iou_cls_scores ! b) (gt_idx ! b) g ! i \<noteq> 0 \<longrightarrow> gt_idx ! b ! i = g)"
proof -
  let ?sc = "iou_cls_scores ! b" and ?gi = "gt_idx ! b" and ?m = "embed_mask ! b"
  let ?idx = "tk (instance_scores ?sc ?gi g) k"
  from embed_mask_of_nth [OF res b]
  have img: "select_image tk k ?sc ?gi (fg ! b) = Inr ?m"
    by simp
  note mk = select_image_mask(2) [OF img]
  from g have ne: "?gi \<noteq> []" by auto
  have k: "k \<le> length ?gi"
    using select_image_mask(3) [OF img ne] by simp
  have lx: "length (instance_scores ?sc ?gi g) = length ?gi"
    using len by (simp add: length_instance_scores)
  from tk k lx have li: "length ?idx = k" and di: "distinct ?idx"
    and ri: "\<And>j. j \<in> set ?idx \<Longrightarrow> j < length ?gi"
    unfolding is_topk_def by metis+
  have a: "?m ! i = (\<exists>g'\<in>set ?gi. i \<in> set (tk (instance_scores ?sc ?gi g') k))"
    using mk [of i] i len by simp
  have "?m ! j" if "j \<in> set ?idx" for j
    using mk [of j] ri [OF that] that g len by auto
  then have c: "list_all (\<lambda>j. j < length ?gi \<and> ?m ! j) ?idx"
    using ri by (simp add: list_all_iff)
  have d: "instance_scores ?sc ?gi g ! i \<noteq> 0 \<longrightarrow> ?gi ! i = g"
    using i len by (simp add: instance_scores_nth)
  from a li di c d show ?thesis by blast
qed

theorem embed_mask_marked_iff_witness:
  "embed_mask_of topk_stable 3 [[1/2, 0, 0]] [[0, -1, -1]] [[True, False, False]]
      = Inr [[True, True, True]]
   \<and> ([True, True, True] ! 1
        = (\<exists>g'\<in>set [0, -1, -1].
             1 \<in> set (topk_stable (instance_scores [1/2, 0, 0] [0, -1, -1] g') 3)))
   \<and> length (topk_stable (instance_scores [1/2, 0, 0] [0, -1, -1] (-1)) 3) = 3
   \<and> list_all (\<lambda>j. j < 3 \<and> [True, True, True] ! j)
        (topk_stable (instance_scores [1/2, 0, 0] [0, -1, -1] (-1)) 3)
   \<and> instance_scores [1/2, 0, 0] [0, -1, -1] 0 ! 0 \<noteq> 0
   \<and> [0, -1, -1 :: int] ! 0 = 0"
proof -
  have res: "embed_mask_of topk_stable 3 [[1/2, 0, 0]] [[0, -1, -1]] [[True, False, False]]
      = Inr [[True, True, True]]"
    by code_simp
  note sentinel = embed_mask_marked_iff [OF topk_stable_is_topk res, of 0 "-1" 1]
  note inst = embed_mask_marked_iff [OF topk_stable_is_topk res, of 0 0 0]
  have a: "[True, True, True] ! 1
        = (\<exists>g'\<in>set [0, -1, -1].
             1 \<in> set (topk_stable (instance_scores [1/2, 0, 0] [0, -1, -1] g') 3))"
    and b: "length (topk_stable (instance_scores [1/2, 0, 0] [0, -1, -1] (-1)) 3) = 3"
    and c: "list_all (\<lambda>j. j < 3 \<and> [True, True, True] ! j)
        (topk_stable (instance_scores [1/2, 0, 0] [0, -1, -1] (-1)) 3)"
    using sentinel by (simp_all add: numeral_3_eq_3)
  have d: "instance_scores [1/2, 0, 0] [0, -1, -1] 0 ! 0 \<noteq> 0"
    by (simp add: instance_scores_def)
  have e: "[0, -1, -1 :: int] ! 0 = 0"
    using inst d by simp
  show ?thesis
    by (intro conjI) (fact res a b c d e)+
qed

text \<open>
  As the claim states it, no background position is ever marked. With three positions, the
  first foreground for instance 0 and the other two background with index \<open>-1\<close>, and
  \<open>k = 3\<close>, each top-k call returns all three positions: the background ones are marked.
\<close>

theorem embed_mask_background_counterexample:
  "embed_mask_of topk_stable 3 [[1/2, 0, 0]] [[0, -1, -1]] [[True, False, False]]
      = Inr [[True, True, True]]
   \<and> \<not> marks_only_foreground [True, True, True] [True, False, False]"
proof -
  have "embed_mask_of topk_stable 3 [[1/2, 0, 0]] [[0, -1, -1]] [[True, False, False]]
      = Inr [[True, True, True]]"
    by code_simp
  then show ?thesis by (simp add: marks_only_foreground_def)
qed

subsection \<open>Norms of the embeddings passed to the embedding losses\<close>

text \<open>
  Claim C4, as the code has it. The predicted rows passed to \<^verbatim>\<open>kd_loss\<close> and
  \<^verbatim>\<open>rkd_loss\<close> are the selected raw rows, each divided by its norm: a raw row that is not
  all zero is passed with L2 norm 1, a raw row that is all zero is passed as the undefined
  row. The target rows passed are rows of the assigner's target embeddings, as they are.
\<close>

theorem embed_loss_inputs_rows:
  "mask_select (normalize_embeds pred_embeds) embed_mask
     = map normalize_row (mask_select pred_embeds embed_mask)
   \<and> list_all2 (\<lambda>v r. case r of
                         None \<Rightarrow> list_all (\<lambda>x. x = 0) v
                       | Some u \<Rightarrow> list_ex (\<lambda>x. x \<noteq> 0) v \<and> l2_norm u = 1)
       (mask_select pred_embeds embed_mask)
       (mask_select (normalize_embeds pred_embeds) embed_mask)
   \<and> set (mask_select tgt_embeds embed_mask) \<subseteq> set (concat tgt_embeds)"
proof -
  have eq: "mask_select (normalize_embeds pred_embeds) embed_mask
     = map normalize_row (mask_select pred_embeds embed_mask)"
    by (simp add: normalize_embeds_def mask_select_map)
  have "list_all2 (\<lambda>v r. case r of
                         None \<Rightarrow> list_all (\<lambda>x. x = 0) v
                       | Some u \<Rightarrow> list_ex (\<lambda>x. x \<noteq> 0) v \<and> l2_norm u = 1)
       (mask_select pred_embeds embed_mask)
       (map normalize_row (mask_select pred_embeds embed_mask))"
    by (simp add: list_all2_map2 list_all2_same normalize_row_cases)
  with eq set_mask_select [of tgt_embeds embed_mask] show ?thesis by simp
qed

theorem embed_loss_inputs_rows_witness:
  "mask_select (normalize_embeds [[[3, 4], [0, 0], [1, 0]]]) [[True, True, False]]
     = [Some [3 / 5, 4 / 5], None]
   \<and> list_all2 (\<lambda>v r. case r of
                         None \<Rightarrow> list_all (\<lambda>x. x = 0) v
                       | Some u \<Rightarrow> list_ex (\<lambda>x. x \<noteq> 0) v \<and> l2_norm u = 1)
       [[3, 4], [0, 0 :: real]] [Some [3 / 5, 4 / 5], None]"
proof -
  have v: "mask_select (normalize_embeds [[[3, 4], [0, 0], [1, 0]]]) [[True, True, False]]
     = [Some [3 / 5, 4 / 5], None]"
    by (simp add: mask_select_def normalize_embeds_def normalize_row_def l2_norm_3_4)
       (simp add: l2_norm_def)
  have s: "mask_select [[[3, 4], [0, 0], [1, 0 :: real]]] [[True, True, False]] = [[3, 4], [0, 0]]"
    by (simp add: mask_select_def)
  from embed_loss_inputs_rows [of "[[[3, 4], [0, 0], [1, 0]]]" "[[True, True, False]]" "[]"]
  have "list_all2 (\<lambda>v r. case r of
                         None \<Rightarrow> list_all (\<lambda>x. x = 0) v
                       | Some u \<Rightarrow> list_ex (\<lambda>x. x \<noteq> 0) v \<and> l2_norm u = 1)
       [[3, 4], [0, 0 :: real]] [Some [3 / 5, 4 / 5], None]"
    unfolding v s by (rule conjunct2 [THEN conjunct1])
  with v show ?thesis by (rule conjI)
qed

text \<open>
  As the claim states it, every row has norm 1. An all-zero predicted row is divided by its
  zero norm and is not a unit vector (the undefined row \<open>None\<close>; read with the reals'
  \<open>x / 0 = 0\<close> its norm is 0), and a target row \<open>[3, 4]\<close> of norm 5 is passed unchanged.
\<close>

theorem embed_loss_zero_vector_counterexample:
  "mask_select (normalize_embeds [[[0, 0]]]) [[True]] = [None]
   \<and> l2_norm (map (\<lambda>x. x / l2_norm [0, 0]) [0, 0]) \<noteq> 1
   \<and> mask_select [[[3, 4 :: real]]] [[True]] = [[3, 4]] \<and> l2_norm [3, 4] \<noteq> 1"
  by (simp add: mask_select_def normalize_embeds_def normalize_row_def l2_norm_def l2_norm_3_4 [unfolded l2_norm_def])

end
